theory Spec2Isabelle
  imports Complex_Main
begin

section \<open>Python values, errors and list access\<close>

text \<open>
  Numbers: Python is dynamically typed, and the functions of the source are embedded
  once, for every type of numbers that has the operations they use. A matrix of Python
  \<open>int\<close>s is a matrix over \<open>int\<close>; a matrix of Python \<open>float\<close>s is a matrix over
  \<open>double\<close> below, whose sum and product round as IEEE 754 binary64 does; a matrix
  over \<open>real\<close> is the same computation in exact arithmetic. A matrix is a list of rows,
  as in the source.

  Errors are values. \<open>IndexError\<close> is Python's error of a list or tuple index out of
  range, \<open>ValueError\<close> carries its message, \<open>LinAlgError\<close> is the error of
  \<open>numpy.linalg\<close>.
\<close>

datatype py_error = IndexError | ValueError string | LinAlgError

type_synonym 'a matrix = "'a list list"

definition bind_r :: "py_error + 'a \<Rightarrow> ('a \<Rightarrow> py_error + 'b) \<Rightarrow> py_error + 'b" where
  "bind_r r f = (case r of Inl e \<Rightarrow> Inl e | Inr x \<Rightarrow> f x)"

text \<open>\<open>xs[i]\<close> for an index \<open>i \<ge> 0\<close> (every index of the source comes from \<open>range\<close>).\<close>

definition py_get :: "'a list \<Rightarrow> nat \<Rightarrow> py_error + 'a" where
  "py_get xs i = (if i < length xs then Inr (xs ! i) else Inl IndexError)"

text \<open>\<open>m[i][j]\<close>: the row is read first, then the element.\<close>

definition py_get2 :: "'a matrix \<Rightarrow> nat \<Rightarrow> nat \<Rightarrow> py_error + 'a" where
  "py_get2 m i j = bind_r (py_get m i) (\<lambda>row. py_get row j)"

text \<open>\<open>sum(xs)\<close>: starts at 0 and adds from left to right.\<close>

definition py_sum :: "'a::monoid_add list \<Rightarrow> 'a" where
  "py_sum xs = foldl (+) 0 xs"

text \<open>
  \<open>max(xs)\<close> over a sequence or generator: \<open>ValueError\<close> when it is empty; otherwise the
  first item is kept until a strictly greater one is met.
\<close>

definition max_empty :: py_error where
  "max_empty = ValueError ''max() arg is an empty sequence''"

fun py_max :: "'a::linorder list \<Rightarrow> py_error + 'a" where
  "py_max [] = Inl max_empty"
| "py_max (x # xs) = Inr (foldl (\<lambda>m y. if m < y then y else m) x xs)"

text \<open>
  \<open>float(x)\<close> is the identity on a float. On an \<open>int\<close> it gives the nearest double, the same
  number up to \<open>2^53\<close> in magnitude, and raises \<open>OverflowError\<close> beyond the range of
  doubles; the model keeps the number, so the norms of matrices of such large integers are
  outside it.
\<close>

definition py_float :: "'a \<Rightarrow> 'a" where
  "py_float x = x"

subsection \<open>Python floats\<close>

text \<open>
  A \<open>float\<close> is a finite number, an infinity (\<open>Inf True\<close> is \<open>+inf\<close>, \<open>Inf False\<close> is
  \<open>-inf\<close>) or \<open>nan\<close>. The sign of a zero is not kept: \<open>-0.0 == 0.0\<close> in Python, and no
  function of the source tells them apart.

  \<open>fl x\<close> rounds a real number to the nearest double, ties to the even significand.
  Below \<open>2^-1022\<close> the doubles are spaced \<open>2^-1074\<close> apart (gradual underflow), so every
  number smaller than \<open>2^-1075\<close> in magnitude rounds to zero; from \<open>2^e\<close> to \<open>2^(e+1)\<close>
  they are spaced \<open>2^(e-52)\<close> apart; a rounded value of magnitude \<open>2^1024\<close> or more is an
  infinity. Python's \<open>+\<close> and \<open>*\<close> on floats raise no error on overflow.
\<close>

datatype double = Finite real | Inf bool | NaN

definition round_even :: "real \<Rightarrow> int" where
  "round_even y =
     (let f = \<lfloor>y\<rfloor>; d = y - of_int f
      in if d < 1 / 2 then f else if 1 / 2 < d then f + 1 else if even f then f else f + 1)"

definition fl :: "real \<Rightarrow> double" where
  "fl x =
     (let q = (if \<bar>x\<bar> < 1 / 2 ^ 1022 then 1 / 2 ^ 1074
               else 2 powr (of_int \<lfloor>log 2 \<bar>x\<bar>\<rfloor> - 52));
          y = of_int (round_even (x / q)) * q
      in if 2 ^ 1024 \<le> \<bar>y\<bar> then Inf (0 < x) else Finite y)"

instantiation double :: "{zero, plus, times}"
begin

definition zero_double :: double where
  "zero_double = Finite 0"

fun plus_double :: "double \<Rightarrow> double \<Rightarrow> double" where
  "plus_double (Finite x) (Finite y) = fl (x + y)"
| "plus_double (Finite x) (Inf s) = Inf s"
| "plus_double (Inf s) (Finite y) = Inf s"
| "plus_double (Inf s) (Inf t) = (if s = t then Inf s else NaN)"
| "plus_double NaN b = NaN"
| "plus_double a NaN = NaN"

fun times_double :: "double \<Rightarrow> double \<Rightarrow> double" where
  "times_double (Finite x) (Finite y) = fl (x * y)"
| "times_double (Finite x) (Inf s) = (if x = 0 then NaN else Inf (s = (0 < x)))"
| "times_double (Inf s) (Finite y) = (if y = 0 then NaN else Inf (s = (0 < y)))"
| "times_double (Inf s) (Inf t) = Inf (s = t)"
| "times_double NaN b = NaN"
| "times_double a NaN = NaN"

instance ..

end


section \<open>matrix\_operations.py\<close>

subsection \<open>column\_sums\<close>

text \<open>
  The inner loop \<open>for j in range(cols): column_sums[j] += abs(row[j])\<close> over the
  remaining indices \<open>js\<close>; \<open>row[j]\<close> raises when the row is shorter than the first row.
\<close>

fun column_sums_row :: "'a::linordered_idom list \<Rightarrow> nat list \<Rightarrow> 'a list \<Rightarrow> py_error + 'a list" where
  "column_sums_row row [] acc = Inr acc"
| "column_sums_row row (j # js) acc =
     bind_r (py_get row j) (\<lambda>x. column_sums_row row js (acc[j := acc ! j + \<bar>x\<bar>]))"

text \<open>The outer loop \<open>for row in matrix\<close>.\<close>

fun column_sums_rows :: "'a::linordered_idom matrix \<Rightarrow> nat \<Rightarrow> 'a list \<Rightarrow> py_error + 'a list" where
  "column_sums_rows [] cols acc = Inr acc"
| "column_sums_rows (row # rest) cols acc =
     bind_r (column_sums_row row [0..<cols] acc) (\<lambda>acc'. column_sums_rows rest cols acc')"

definition column_sums :: "'a::linordered_idom matrix \<Rightarrow> py_error + 'a list" where
  "column_sums matrix =
     (if matrix = [] \<or> hd matrix = [] then Inr []
      else let cols = length (hd matrix)
           in column_sums_rows matrix cols (replicate cols 0))"

subsection \<open>row\_sums\<close>

text \<open>
  The loop \<open>for row in matrix: row_sums[counter] += sum(abs(x) for x in row); counter += 1\<close>
  with its state, the list and the counter.
\<close>

fun row_sums_rows :: "'a::linordered_idom matrix \<Rightarrow> nat \<Rightarrow> 'a list \<Rightarrow> 'a list" where
  "row_sums_rows [] counter acc = acc"
| "row_sums_rows (row # rest) counter acc =
     row_sums_rows rest (counter + 1) (acc[counter := acc ! counter + py_sum (map abs row)])"

definition row_sums :: "'a::linordered_idom matrix \<Rightarrow> py_error + 'a list" where
  "row_sums matrix =
     (if matrix = [] \<or> hd matrix = [] then Inr []
      else let rows = length matrix
           in Inr (row_sums_rows matrix 0 (replicate rows 0)))"

subsection \<open>transpose\<close>

text \<open>
  \<open>transposed_matrix\<close> is built by a comprehension, so its rows are distinct lists and
  an assignment to \<open>transposed_matrix[j][i]\<close> changes one cell only.
  The inner loop \<open>for j in range(number_of_columns)\<close> of row \<open>i\<close>:
\<close>

fun transpose_row :: "'a matrix \<Rightarrow> nat \<Rightarrow> nat list \<Rightarrow> 'a matrix \<Rightarrow> py_error + 'a matrix" where
  "transpose_row matrix i [] t = Inr t"
| "transpose_row matrix i (j # js) t =
     bind_r (py_get2 matrix i j) (\<lambda>x. transpose_row matrix i js (t[j := (t ! j)[i := x]]))"

text \<open>The outer loop \<open>for i in range(number_of_rows)\<close>.\<close>

fun transpose_rows :: "'a matrix \<Rightarrow> nat list \<Rightarrow> nat \<Rightarrow> 'a matrix \<Rightarrow> py_error + 'a matrix" where
  "transpose_rows matrix [] cols t = Inr t"
| "transpose_rows matrix (i # is) cols t =
     bind_r (transpose_row matrix i [0..<cols] t) (\<lambda>t'. transpose_rows matrix is cols t')"

definition transpose_mat :: "'a::zero matrix \<Rightarrow> py_error + 'a matrix" where
  "transpose_mat matrix =
     (if matrix = [] \<or> hd matrix = [] then Inr []
      else let number_of_rows = length matrix;
               number_of_columns = length (hd matrix)
           in transpose_rows matrix [0..<number_of_rows] number_of_columns
                (replicate number_of_columns (replicate number_of_rows 0)))"

subsection \<open>matrix\_multiply\<close>

text \<open>
  \<open>sum(matrix1[i][k] * matrix2[k][j] for k in range(matrix1_cols))\<close>: the generator is
  consumed from left to right, the accumulator starts at 0.
\<close>

fun dot_sum :: "'a::{zero,plus,times} matrix \<Rightarrow> 'a matrix \<Rightarrow> nat \<Rightarrow> nat \<Rightarrow> nat list \<Rightarrow> 'a \<Rightarrow> py_error + 'a" where
  "dot_sum m1 m2 i j [] acc = Inr acc"
| "dot_sum m1 m2 i j (k # ks) acc =
     bind_r (py_get2 m1 i k) (\<lambda>x.
     bind_r (py_get2 m2 k j) (\<lambda>y.
       dot_sum m1 m2 i j ks (acc + x * y)))"

text \<open>The loop \<open>for j in range(matrix2_cols)\<close> of row \<open>i\<close>.\<close>

fun multiply_row :: "'a::{zero,plus,times} matrix \<Rightarrow> 'a matrix \<Rightarrow> nat \<Rightarrow> nat \<Rightarrow> nat list \<Rightarrow> 'a matrix \<Rightarrow> py_error + 'a matrix" where
  "multiply_row m1 m2 m1_cols i [] res = Inr res"
| "multiply_row m1 m2 m1_cols i (j # js) res =
     bind_r (dot_sum m1 m2 i j [0..<m1_cols] 0) (\<lambda>s.
       multiply_row m1 m2 m1_cols i js (res[i := (res ! i)[j := s]]))"

text \<open>The loop \<open>for i in range(matrix1_rows)\<close>.\<close>

fun multiply_rows :: "'a::{zero,plus,times} matrix \<Rightarrow> 'a matrix \<Rightarrow> nat \<Rightarrow> nat \<Rightarrow> nat list \<Rightarrow> 'a matrix \<Rightarrow> py_error + 'a matrix" where
  "multiply_rows m1 m2 m1_cols m2_cols [] res = Inr res"
| "multiply_rows m1 m2 m1_cols m2_cols (i # is) res =
     bind_r (multiply_row m1 m2 m1_cols i [0..<m2_cols] res) (\<lambda>res'.
       multiply_rows m1 m2 m1_cols m2_cols is res')"

definition matrix_multiply :: "'a::{zero,plus,times} matrix \<Rightarrow> 'a matrix \<Rightarrow> py_error + 'a matrix" where
  "matrix_multiply matrix1 matrix2 =
     (if matrix1 = [] \<or> matrix2 = [] then Inr []
      else let matrix1_rows = length matrix1;
               matrix1_cols = length (hd matrix1);
               matrix2_rows = length matrix2;
               matrix2_cols = length (hd matrix2)
           in if matrix1_cols \<noteq> matrix2_rows then Inr []
              else multiply_rows matrix1 matrix2 matrix1_cols matrix2_cols [0..<matrix1_rows]
                     (replicate matrix1_rows (replicate matrix2_cols 0)))"

subsection \<open>compute\_eigenvalues\<close>

text \<open>
  \<open>np.array(matrix).shape\<close> for a list of lists of numbers: \<open>(0,)\<close> for the empty list,
  \<open>(R, C)\<close> for \<open>R \<ge> 1\<close> rows of one length \<open>C\<close> (also \<open>C = 0\<close>). For rows of
  different lengths numpy refuses the array (an inhomogeneous shape; older versions build
  a one-dimensional array of objects, whose \<open>shape[1]\<close> fails as well). The message of
  that \<open>ValueError\<close> goes on with the shape that was found; the constant below is its
  fixed beginning.
\<close>

definition inhomogeneous :: py_error where
  "inhomogeneous = ValueError ''setting an array element with a sequence. The requested array has an inhomogeneous shape''"

definition np_shape :: "'a matrix \<Rightarrow> py_error + nat list" where
  "np_shape matrix =
     (if matrix = [] then Inr [0]
      else if list_all (\<lambda>row. length row = length (hd matrix)) matrix
           then Inr [length matrix, length (hd matrix)]
           else Inl inhomogeneous)"

definition ShapeError :: py_error where
  "ShapeError = ValueError ''The matrix must be square (same number of rows and columns).''"

text \<open>
  \<open>np.linalg.eigvals\<close> is a routine of numpy, not of this repository: it is the
  parameter \<open>eigvals\<close>, which gives the list of eigenvalues (complex numbers; a real
  eigenvalue is one with imaginary part 0) or \<open>None\<close> when the routine raises.
\<close>

definition compute_eigenvalues ::
  "('a matrix \<Rightarrow> complex list option) \<Rightarrow> 'a matrix \<Rightarrow> py_error + complex list" where
  "compute_eigenvalues eigvals matrix =
     bind_r (np_shape matrix) (\<lambda>shape.
     bind_r (py_get shape 0) (\<lambda>r.
     bind_r (py_get shape 1) (\<lambda>c.
       if r \<noteq> c then Inl ShapeError
       else (case eigvals matrix of None \<Rightarrow> Inl LinAlgError | Some eigenvalues \<Rightarrow> Inr eigenvalues))))"

section \<open>matrix\_norms.py\<close>

definition one_norm :: "'a::linordered_idom matrix \<Rightarrow> py_error + 'a" where
  "one_norm matrix =
     bind_r (column_sums matrix) (\<lambda>matrix_column_sums.
     bind_r (py_max matrix_column_sums) (\<lambda>v. Inr (py_float v)))"

definition infinity_norm :: "'a::linordered_idom matrix \<Rightarrow> py_error + 'a" where
  "infinity_norm matrix =
     bind_r (row_sums matrix) (\<lambda>matrix_row_sums.
     bind_r (py_max matrix_row_sums) (\<lambda>v. Inr (py_float v)))"

text \<open>\<open>max(abs(element) for row in matrix for element in row)\<close>.\<close>

definition max_norm :: "'a::linordered_idom matrix \<Rightarrow> py_error + 'a" where
  "max_norm matrix = bind_r (py_max (map abs (concat matrix))) (\<lambda>v. Inr (py_float v))"

text \<open>
  \<open>abs(x)\<close> of an eigenvalue is its modulus; \<open>v ** 0.5\<close> of a float \<open>v \<ge> 0\<close> is its
  square root. Both are the exact ones here; Python rounds them to doubles, which keeps
  zero at zero and keeps the sign.
\<close>

definition two_norm ::
  "('a::{zero,plus,times} matrix \<Rightarrow> complex list option) \<Rightarrow> 'a matrix \<Rightarrow> py_error + real" where
  "two_norm eigvals matrix =
     bind_r (transpose_mat matrix) (\<lambda>transposed_matrix.
     bind_r (matrix_multiply transposed_matrix matrix) (\<lambda>matrix_product.
     bind_r (compute_eigenvalues eigvals matrix_product) (\<lambda>eigenvalues.
     bind_r (py_max (map cmod eigenvalues)) (\<lambda>v. Inr (sqrt v)))))"

section \<open>Shapes and the results the specification names\<close>

text \<open>\<open>rect m R C\<close>: the matrix has \<open>R\<close> rows, each of length \<open>C\<close>.\<close>

definition rect :: "'a matrix \<Rightarrow> nat \<Rightarrow> nat \<Rightarrow> bool" where
  "rect m R C = (length m = R \<and> list_all (\<lambda>row. length row = C) m)"

text \<open>
  The results in the specification's words, to compare the loops with: the \<open>C \<times> R\<close>
  matrix with \<open>output[j][i] = input[i][j]\<close>, and the \<open>R1 \<times> C2\<close> matrix with
  \<open>result[i][j] = \<Sum>k. a[i][k] * b[k][j]\<close>.
\<close>

definition transposed :: "'a matrix \<Rightarrow> nat \<Rightarrow> nat \<Rightarrow> 'a matrix" where
  "transposed m R C = map (\<lambda>j. map (\<lambda>i. m ! i ! j) [0..<R]) [0..<C]"

definition product :: "'a::semiring_0 matrix \<Rightarrow> 'a matrix \<Rightarrow> nat \<Rightarrow> nat \<Rightarrow> nat \<Rightarrow> 'a matrix" where
  "product a b R1 C1 C2 = map (\<lambda>i. map (\<lambda>j. \<Sum>k<C1. a ! i ! k * b ! k ! j) [0..<C2]) [0..<R1]"

text \<open>A routine that returns the same list of eigenvalues for every matrix.\<close>

definition fixed_eigvals :: "complex list \<Rightarrow> 'a matrix \<Rightarrow> complex list option" where
  "fixed_eigvals evs M = Some evs"

text \<open>
  The Gram matrix in the specification's words: the \<open>C \<times> C\<close> matrix of the sums
  \<open>\<Sum>i. m[i][j] * m[i][j']\<close>, the product of the transpose with the matrix.
\<close>

definition gram :: "real matrix \<Rightarrow> nat \<Rightarrow> nat \<Rightarrow> real matrix" where
  "gram m R C = map (\<lambda>j. map (\<lambda>j'. \<Sum>i<R. m ! i ! j * m ! i ! j') [0..<C]) [0..<C]"

text \<open>
  What \<open>np.linalg.eigvals\<close> computes, in exact arithmetic. A number \<open>l\<close> is an eigenvalue
  of \<open>M\<close> when \<open>M v = l v\<close> for some vector \<open>v \<noteq> 0\<close> of complex numbers. The routine
  returns, for an \<open>n \<times> n\<close> matrix, \<open>n\<close> numbers: each eigenvalue as often as its algebraic
  multiplicity, so that the list holds exactly the eigenvalues and its sum is the trace.
\<close>

definition mat_vec :: "real matrix \<Rightarrow> complex list \<Rightarrow> complex list" where
  "mat_vec M v = map (\<lambda>row. \<Sum>k<length v. complex_of_real (row ! k) * v ! k) M"

definition is_eigenvalue :: "real matrix \<Rightarrow> complex \<Rightarrow> bool" where
  "is_eigenvalue M l =
     (\<exists>v. length v = length M \<and> (\<exists>x\<in>set v. x \<noteq> 0) \<and> mat_vec M v = map (\<lambda>x. l * x) v)"

definition trace :: "real matrix \<Rightarrow> real" where
  "trace M = (\<Sum>i<length M. M ! i ! i)"

definition exact_eigenvalues :: "real matrix \<Rightarrow> complex list \<Rightarrow> bool" where
  "exact_eigenvalues M evs =
     (length evs = length M \<and> set evs = {l. is_eigenvalue M l}
      \<and> sum_list evs = complex_of_real (trace M))"

section \<open>The loops compute the named results\<close>

subsection \<open>transpose\<close>

lemma rect_nth: "rect m R C \<Longrightarrow> i < R \<Longrightarrow> length (m ! i) = C"
  by (auto simp: rect_def list_all_length)

lemma py_get2_ok: "i < length m \<Longrightarrow> j < length (m ! i) \<Longrightarrow> py_get2 m i j = Inr (m ! i ! j)"
  by (simp add: py_get2_def py_get_def bind_r_def)

lemma transpose_row_fold:
  "i < length m \<Longrightarrow> \<forall>j\<in>set js. j < length (m ! i) \<Longrightarrow>
   transpose_row m i js t = Inr (fold (\<lambda>j t. t[j := (t ! j)[i := m ! i ! j]]) js t)"
  by (induction js arbitrary: t) (simp_all add: py_get2_ok bind_r_def)

lemma col_fold_length:
  "length (fold (\<lambda>j t. t[j := (t ! j)[i := f j]]) js t) = length t"
  by (induction js arbitrary: t) simp_all

lemma col_fold_nth:
  "p < length t \<Longrightarrow>
   fold (\<lambda>j t. t[j := (t ! j)[i := f j]]) js t ! p = (if p \<in> set js then (t ! p)[i := f p] else t ! p)"
proof (induction js arbitrary: t)
  case Nil
  then show ?case by simp
next
  case (Cons j js)
  then show ?case
    by (cases "p = j") (simp_all add: nth_list_update)
qed

lemma transpose_rows_fold:
  "\<forall>i\<in>set is. i < length m \<and> cols \<le> length (m ! i) \<Longrightarrow>
   transpose_rows m is cols t =
     Inr (fold (\<lambda>i t. fold (\<lambda>j t. t[j := (t ! j)[i := m ! i ! j]]) [0..<cols] t) is t)"
  by (induction "is" arbitrary: t) (simp_all add: transpose_row_fold bind_r_def)

lemma rows_fold_length:
  "length (fold (\<lambda>i t. fold (\<lambda>j t. t[j := (t ! j)[i := f i j]]) [0..<cols] t) is t) = length t"
  by (induction "is" arbitrary: t) (simp_all add: col_fold_length)

lemma rows_fold_nth_length:
  "p < length t \<Longrightarrow>
   length (fold (\<lambda>i t. fold (\<lambda>j t. t[j := (t ! j)[i := f i j]]) [0..<cols] t) is t ! p) = length (t ! p)"
  by (induction "is" arbitrary: t) (simp_all add: col_fold_length col_fold_nth)

lemma rows_fold_nth_nth:
  "p < length t \<Longrightarrow> p < cols \<Longrightarrow> q < length (t ! p) \<Longrightarrow>
   fold (\<lambda>i t. fold (\<lambda>j t. t[j := (t ! j)[i := f i j]]) [0..<cols] t) is t ! p ! q
     = (if q \<in> set is then f q p else t ! p ! q)"
proof (induction "is" arbitrary: t)
  case Nil
  then show ?case by simp
next
  case (Cons i "is")
  let ?t1 = "fold (\<lambda>j t. t[j := (t ! j)[i := f i j]]) [0..<cols] t"
  have l: "p < length ?t1" using Cons.prems by (simp add: col_fold_length)
  have r: "?t1 ! p = (t ! p)[i := f i p]" using Cons.prems by (simp add: col_fold_nth)
  have "fold (\<lambda>i t. fold (\<lambda>j t. t[j := (t ! j)[i := f i j]]) [0..<cols] t) is ?t1 ! p ! q
        = (if q \<in> set is then f q p else ?t1 ! p ! q)"
    using Cons.IH[OF l Cons.prems(2)] Cons.prems(3) r by simp
  then show ?case using r Cons.prems(3) by (auto simp: nth_list_update)
qed

lemma transpose_mat_rect:
  assumes "rect m R C" "0 < R" "0 < C"
  shows "transpose_mat m = Inr (transposed m R C)"
proof -
  let ?init = "replicate C (replicate R (0::'a))"
  let ?t = "fold (\<lambda>i t. fold (\<lambda>j t. t[j := (t ! j)[i := m ! i ! j]]) [0..<C] t) [0..<R] ?init"
  have len: "length m = R" using assms by (simp add: rect_def)
  have hdl: "length (hd m) = C" using assms rect_nth[OF assms(1), of 0] by (cases m) (auto simp: rect_def)
  have ne: "m \<noteq> []" "hd m \<noteq> []" using len hdl assms by auto
  have rng: "\<forall>i\<in>set [0..<R]. i < length m \<and> C \<le> length (m ! i)"
    using assms len by (simp add: rect_nth)
  have 1: "transpose_mat m = Inr ?t"
    using ne len hdl transpose_rows_fold[OF rng] by (simp add: transpose_mat_def Let_def)
  have 2: "?t = transposed m R C"
  proof (rule nth_equalityI)
    show "length ?t = length (transposed m R C)"
      by (simp add: rows_fold_length transposed_def)
  next
    fix p assume "p < length ?t"
    then have p: "p < C" by (simp add: rows_fold_length)
    show "?t ! p = transposed m R C ! p"
    proof (rule nth_equalityI)
      show "length (?t ! p) = length (transposed m R C ! p)"
        using p by (simp add: rows_fold_nth_length transposed_def)
    next
      fix q assume "q < length (?t ! p)"
      then have q: "q < R" using p by (simp add: rows_fold_nth_length)
      show "?t ! p ! q = transposed m R C ! p ! q"
        using p q by (simp add: rows_fold_nth_nth transposed_def)
    qed
  qed
  show ?thesis using 1 2 by simp
qed

subsection \<open>matrix\_multiply\<close>

lemma dot_sum_list:
  "i < length m1 \<Longrightarrow> \<forall>k\<in>set ks. k < length (m1 ! i) \<and> k < length m2 \<and> j < length (m2 ! k) \<Longrightarrow>
   dot_sum m1 m2 i j ks acc = Inr (acc + sum_list (map (\<lambda>k. m1 ! i ! k * m2 ! k ! j) ks))"
  by (induction ks arbitrary: acc) (simp_all add: py_get2_ok bind_r_def add.assoc)

lemma dot_sum_upt:
  assumes "i < length m1" "n \<le> length (m1 ! i)" "n \<le> length m2" "\<forall>k<n. j < length (m2 ! k)"
  shows "dot_sum m1 m2 i j [0..<n] 0 = Inr (\<Sum>k<n. m1 ! i ! k * m2 ! k ! j)"
proof -
  have "dot_sum m1 m2 i j [0..<n] 0 = Inr (0 + sum_list (map (\<lambda>k. m1 ! i ! k * m2 ! k ! j) [0..<n]))"
    using assms by (intro dot_sum_list) auto
  then show ?thesis
    by (simp add: interv_sum_list_conv_sum_set_nat atLeast0LessThan)
qed

lemma multiply_row_fold:
  assumes "i < length m1" "c \<le> length (m1 ! i)" "c \<le> length m2"
    and "\<forall>j\<in>set js. \<forall>k<c. j < length (m2 ! k)"
  shows "multiply_row m1 m2 c i js res =
     Inr (fold (\<lambda>j res. res[i := (res ! i)[j := (\<Sum>k<c. m1 ! i ! k * m2 ! k ! j)]]) js res)"
  using assms(4)
proof (induction js arbitrary: res)
  case Nil
  then show ?case by simp
next
  case (Cons j js)
  have "dot_sum m1 m2 i j [0..<c] 0 = Inr (\<Sum>k<c. m1 ! i ! k * m2 ! k ! j)"
    using assms(1-3) Cons.prems by (intro dot_sum_upt) auto
  then show ?case using Cons by (simp add: bind_r_def)
qed

lemma row_fold_length:
  "length (fold (\<lambda>j res. res[i := (res ! i)[j := g j]]) js res) = length res"
  by (induction js arbitrary: res) simp_all

lemma row_fold_nth:
  "p < length res \<Longrightarrow>
   fold (\<lambda>j res. res[i := (res ! i)[j := g j]]) js res ! p
     = (if p = i then fold (\<lambda>j r. r[j := g j]) js (res ! p) else res ! p)"
  by (induction js arbitrary: res) (simp_all add: nth_list_update)

lemma cell_fold_length: "length (fold (\<lambda>j r. r[j := g j]) js r) = length r"
  by (induction js arbitrary: r) simp_all

lemma cell_fold_nth:
  "q < length r \<Longrightarrow> fold (\<lambda>j r. r[j := g j]) js r ! q = (if q \<in> set js then g q else r ! q)"
proof (induction js arbitrary: r)
  case Nil
  then show ?case by simp
next
  case (Cons j js)
  then show ?case by (cases "q = j") (simp_all add: nth_list_update)
qed

lemma multiply_rows_fold:
  assumes "c \<le> length m2" "\<forall>j<c2. \<forall>k<c. j < length (m2 ! k)"
    and "\<forall>i\<in>set is. i < length m1 \<and> c \<le> length (m1 ! i)"
  shows "multiply_rows m1 m2 c c2 is res =
     Inr (fold (\<lambda>i res. fold (\<lambda>j res. res[i := (res ! i)[j := (\<Sum>k<c. m1 ! i ! k * m2 ! k ! j)]]) [0..<c2] res) is res)"
  using assms(3)
proof (induction "is" arbitrary: res)
  case Nil
  then show ?case by simp
next
  case (Cons i "is")
  have "multiply_row m1 m2 c i [0..<c2] res =
     Inr (fold (\<lambda>j res. res[i := (res ! i)[j := (\<Sum>k<c. m1 ! i ! k * m2 ! k ! j)]]) [0..<c2] res)"
    using assms(1,2) Cons.prems by (intro multiply_row_fold) auto
  then show ?case using Cons by (simp add: bind_r_def)
qed

lemma row_fold_nth_length:
  "p < length res \<Longrightarrow>
   length (fold (\<lambda>j res. res[i := (res ! i)[j := g j]]) js res ! p) = length (res ! p)"
  by (simp add: row_fold_nth cell_fold_length)

lemma row_fold_cell:
  "p < length res \<Longrightarrow> q < length (res ! p) \<Longrightarrow>
   fold (\<lambda>j res. res[i := (res ! i)[j := g j]]) js res ! p ! q
     = (if p = i \<and> q \<in> set js then g q else res ! p ! q)"
  by (cases "p = i") (simp_all add: row_fold_nth cell_fold_nth)

lemma grid_fold_length:
  "length (fold (\<lambda>i res. fold (\<lambda>j res. res[i := (res ! i)[j := g i j]]) js res) is res) = length res"
  by (induction "is" arbitrary: res) (simp_all add: row_fold_length)

lemma grid_fold_nth_length:
  "p < length res \<Longrightarrow>
   length (fold (\<lambda>i res. fold (\<lambda>j res. res[i := (res ! i)[j := g i j]]) js res) is res ! p)
     = length (res ! p)"
  by (induction "is" arbitrary: res) (simp_all add: row_fold_length row_fold_nth_length)

lemma grid_fold_cell:
  "p < length res \<Longrightarrow> q < length (res ! p) \<Longrightarrow>
   fold (\<lambda>i res. fold (\<lambda>j res. res[i := (res ! i)[j := g i j]]) js res) is res ! p ! q
     = (if p \<in> set is \<and> q \<in> set js then g p q else res ! p ! q)"
proof (induction "is" arbitrary: res)
  case Nil
  then show ?case by simp
next
  case (Cons i "is")
  let ?r1 = "fold (\<lambda>j res. res[i := (res ! i)[j := g i j]]) js res"
  have l: "p < length ?r1" using Cons.prems by (simp add: row_fold_length)
  have q: "q < length (?r1 ! p)" using Cons.prems by (simp add: row_fold_nth_length)
  have c: "?r1 ! p ! q = (if p = i \<and> q \<in> set js then g i q else res ! p ! q)"
    using Cons.prems by (simp add: row_fold_cell)
  show ?case using Cons.IH[OF l q] c by auto
qed

lemma rect_hd: "rect m R C \<Longrightarrow> 0 < R \<Longrightarrow> length (hd m) = C"
  by (cases m) (auto simp: rect_def)

lemma matrix_multiply_rect:
  assumes a: "rect a R1 C1" and b: "rect b C1 C2" and pos: "0 < R1" "0 < C1"
  shows "matrix_multiply a b = Inr (product a b R1 C1 C2)"
proof -
  let ?g = "\<lambda>i j. \<Sum>k<C1. a ! i ! k * b ! k ! j"
  let ?init = "replicate R1 (replicate C2 (0::'a))"
  let ?r = "fold (\<lambda>i res. fold (\<lambda>j res. res[i := (res ! i)[j := ?g i j]]) [0..<C2] res) [0..<R1] ?init"
  have la: "length a = R1" and lb: "length b = C1" using a b by (simp_all add: rect_def)
  have ha: "length (hd a) = C1" and hb: "length (hd b) = C2"
    using rect_hd[OF a] rect_hd[OF b] pos by simp_all
  have ne: "a \<noteq> []" "b \<noteq> []" using la lb pos by auto
  have b1: "C1 \<le> length b" and b2: "\<forall>j<C2. \<forall>k<C1. j < length (b ! k)"
    and a1: "\<forall>i\<in>set [0..<R1]. i < length a \<and> C1 \<le> length (a ! i)"
    using la lb rect_nth[OF a] rect_nth[OF b] by auto
  have 1: "multiply_rows a b C1 C2 [0..<R1] ?init = Inr ?r"
    by (rule multiply_rows_fold[OF b1 b2 a1])
  have 2: "?r = product a b R1 C1 C2"
  proof (rule nth_equalityI)
    show "length ?r = length (product a b R1 C1 C2)"
      by (simp add: grid_fold_length product_def)
  next
    fix p assume "p < length ?r"
    then have p: "p < R1" by (simp add: grid_fold_length)
    show "?r ! p = product a b R1 C1 C2 ! p"
    proof (rule nth_equalityI)
      show "length (?r ! p) = length (product a b R1 C1 C2 ! p)"
        using p by (simp add: grid_fold_nth_length product_def)
    next
      fix q assume "q < length (?r ! p)"
      then have q: "q < C2" using p by (simp add: grid_fold_nth_length)
      show "?r ! p ! q = product a b R1 C1 C2 ! p ! q"
        using p q by (simp add: grid_fold_cell product_def)
    qed
  qed
  show ?thesis using ne la lb ha hb 1 2 by (simp add: matrix_multiply_def Let_def)
qed

subsection \<open>Shapes, the Gram matrix and the eigenvalue step\<close>

lemma rect_transposed: "rect (transposed m R C) C R"
  by (simp add: rect_def transposed_def list_all_iff)

lemma rect_product: "rect (product a b R1 C1 C2) R1 C2"
  by (simp add: rect_def product_def list_all_iff)

lemma transposed_nth: "j < C \<Longrightarrow> i < R \<Longrightarrow> transposed m R C ! j ! i = m ! i ! j"
  by (simp add: transposed_def)

lemma product_nth: "i < R1 \<Longrightarrow> j < C2 \<Longrightarrow> product a b R1 C1 C2 ! i ! j = (\<Sum>k<C1. a ! i ! k * b ! k ! j)"
  by (simp add: product_def)

lemma transposed_transposed:
  assumes "rect m R C"
  shows "transposed (transposed m R C) C R = m"
proof (rule nth_equalityI)
  show "length (transposed (transposed m R C) C R) = length m"
    using assms by (simp add: transposed_def rect_def)
next
  fix i assume "i < length (transposed (transposed m R C) C R)"
  then have i: "i < R" by (simp add: transposed_def)
  show "transposed (transposed m R C) C R ! i = m ! i"
  proof (rule nth_equalityI)
    show "length (transposed (transposed m R C) C R ! i) = length (m ! i)"
      using i rect_nth[OF assms i] by (simp add: transposed_def)
  next
    fix j assume "j < length (transposed (transposed m R C) C R ! i)"
    then have "j < C" using i by (simp add: transposed_def)
    then show "transposed (transposed m R C) C R ! i ! j = m ! i ! j"
      using i by (simp add: transposed_def)
  qed
qed

lemma multiply_rows_no_columns: "multiply_rows m1 m2 c 0 is res = Inr res"
  by (induction "is" arbitrary: res) (simp_all add: bind_r_def)

lemma compute_eigenvalues_rect:
  assumes "rect matrix R C" "0 < R"
  shows "compute_eigenvalues eigvals matrix =
     (if R \<noteq> C then Inl ShapeError
      else case eigvals matrix of None \<Rightarrow> Inl LinAlgError | Some evs \<Rightarrow> Inr evs)"
proof -
  have "matrix \<noteq> []" "length matrix = R" using assms by (auto simp: rect_def)
  moreover have "length (hd matrix) = C" using assms by (rule rect_hd)
  moreover have "list_all (\<lambda>row. length row = C) matrix" using assms by (simp add: rect_def)
  ultimately show ?thesis
    by (simp add: compute_eigenvalues_def np_shape_def bind_r_def py_get_def)
qed

lemma errors_differ: "max_empty \<noteq> ShapeError" "LinAlgError \<noteq> ShapeError" "IndexError \<noteq> ShapeError"
  by (simp_all add: max_empty_def ShapeError_def)

lemma gram_rect:
  assumes "rect m R C" "0 < R" "0 < C"
  shows "bind_r (transpose_mat m) (\<lambda>t. matrix_multiply t m) = Inr (product (transposed m R C) m C R C)"
  using assms by (simp add: transpose_mat_rect bind_r_def matrix_multiply_rect rect_transposed)

lemma two_norm_rect:
  assumes "rect m R C" "0 < R" "0 < C"
  shows "two_norm eigvals m =
    (case eigvals (product (transposed m R C) m C R C) of None \<Rightarrow> Inl LinAlgError
     | Some evs \<Rightarrow> bind_r (py_max (map cmod evs)) (\<lambda>v. Inr (sqrt v)))"
proof -
  have "two_norm eigvals m = bind_r (bind_r (transpose_mat m) (\<lambda>t. matrix_multiply t m))
     (\<lambda>g. bind_r (compute_eigenvalues eigvals g) (\<lambda>evs. bind_r (py_max (map cmod evs)) (\<lambda>v. Inr (sqrt v))))"
    by (simp add: two_norm_def bind_r_def split: sum.splits)
  also have "\<dots> = bind_r (compute_eigenvalues eigvals (product (transposed m R C) m C R C))
      (\<lambda>evs. bind_r (py_max (map cmod evs)) (\<lambda>v. Inr (sqrt v)))"
    using assms by (simp add: gram_rect) (simp add: bind_r_def)
  also have "\<dots> = (case eigvals (product (transposed m R C) m C R C) of None \<Rightarrow> Inl LinAlgError
     | Some evs \<Rightarrow> bind_r (py_max (map cmod evs)) (\<lambda>v. Inr (sqrt v)))"
    using assms(3) by (simp add: compute_eigenvalues_rect[OF rect_product] bind_r_def split: option.splits)
  finally show ?thesis .
qed

lemma concat_all_empty: "\<forall>row\<in>set m. row = [] \<Longrightarrow> concat m = []"
  by (induction m) simp_all

section \<open>Claims about the matrix basics\<close>

text \<open>
  C9. \<open>transpose\<close> returns the empty matrix \<open>[]\<close> when the input has no rows or its first
  row has length zero, whatever the other rows are. For a rectangular input of \<open>R \<ge> 1\<close>
  rows and \<open>C \<ge> 1\<close> columns it returns a matrix of \<open>C\<close> rows of length \<open>R\<close> with
  \<open>output[j][i] = input[i][j]\<close>. In particular
  \<open>transpose([[1,2,3],[4,5,6]]) = [[1,4],[2,5],[3,6]]\<close>.
\<close>

theorem transpose_mat_contract:
  "(matrix = [] \<or> hd matrix = [] \<longrightarrow> transpose_mat matrix = Inr [])
   \<and> (rect matrix R C \<and> 0 < R \<and> 0 < C \<longrightarrow>
        (\<exists>t. transpose_mat matrix = Inr t \<and> rect t C R
             \<and> (\<forall>i<R. \<forall>j<C. t ! j ! i = matrix ! i ! j)))
   \<and> transpose_mat [[1, 2, 3], [4, 5, 6 :: int]] = Inr [[1, 4], [2, 5], [3, 6]]"
proof (intro conjI impI)
  assume "matrix = [] \<or> hd matrix = []"
  then show "transpose_mat matrix = Inr []"
    by (auto simp: transpose_mat_def)
next
  assume "rect matrix R C \<and> 0 < R \<and> 0 < C"
  then have "transpose_mat matrix = Inr (transposed matrix R C)"
    by (simp add: transpose_mat_rect)
  then show "\<exists>t. transpose_mat matrix = Inr t \<and> rect t C R
      \<and> (\<forall>i<R. \<forall>j<C. t ! j ! i = matrix ! i ! j)"
    by (simp add: rect_transposed transposed_nth)
next
  show "transpose_mat [[1, 2, 3], [4, 5, 6 :: int]] = Inr [[1, 4], [2, 5], [3, 6]]"
    by (simp add: transpose_mat_def bind_r_def py_get2_def py_get_def upt_rec
        numeral_2_eq_2 numeral_3_eq_3)
qed

theorem transpose_mat_contract_witness:
  "transpose_mat ([[], [7]] :: int matrix) = Inr []
   \<and> rect [[1, 2], [3, 4], [5, 6 :: int]] 3 2
   \<and> (\<exists>t. transpose_mat [[1, 2], [3, 4], [5, 6 :: int]] = Inr t \<and> rect t 2 3
          \<and> (\<forall>i<3. \<forall>j<2. t ! j ! i = [[1, 2], [3, 4], [5, 6]] ! i ! j))"
  using transpose_mat_contract [of "[[], [7]] :: int matrix" 0 0]
    transpose_mat_contract [of "[[1, 2], [3, 4], [5, 6 :: int]]" 3 2]
  by (simp add: rect_def)

text \<open>
  C8. For non-empty matrices \<open>a\<close> (\<open>R1 \<times> C1\<close>) and \<open>b\<close> (\<open>R2 \<times> C2\<close>) with \<open>C1 = R2\<close>,
  \<open>matrix_multiply(a, b)\<close> returns an \<open>R1 \<times> C2\<close> matrix whose entry at row \<open>i\<close>, column
  \<open>j\<close> is the sum over \<open>k\<close> of \<open>a[i][k] * b[k][j]\<close>. In particular
  \<open>matrix_multiply([[1,2],[3,4]], [[5,6],[7,8]]) = [[19,22],[43,50]]\<close>.
\<close>

theorem matrix_multiply_contract:
  "(rect (a :: 'a::semiring_0 matrix) R1 C1 \<and> rect b C1 C2 \<and> 0 < R1 \<and> 0 < C1 \<and> 0 < C2 \<longrightarrow>
      (\<exists>r. matrix_multiply a b = Inr r \<and> rect r R1 C2
           \<and> (\<forall>i<R1. \<forall>j<C2. r ! i ! j = (\<Sum>k<C1. a ! i ! k * b ! k ! j))))
   \<and> matrix_multiply [[1, 2], [3, 4]] [[5, 6], [7, 8 :: int]] = Inr [[19, 22], [43, 50]]"
proof (intro conjI impI)
  assume "rect (a :: 'a matrix) R1 C1 \<and> rect b C1 C2 \<and> 0 < R1 \<and> 0 < C1 \<and> 0 < C2"
  then have "matrix_multiply a b = Inr (product a b R1 C1 C2)"
    by (simp add: matrix_multiply_rect)
  then show "\<exists>r. matrix_multiply a b = Inr r \<and> rect r R1 C2
      \<and> (\<forall>i<R1. \<forall>j<C2. r ! i ! j = (\<Sum>k<C1. a ! i ! k * b ! k ! j))"
    by (simp add: rect_product product_nth)
next
  show "matrix_multiply [[1, 2], [3, 4]] [[5, 6], [7, 8 :: int]] = Inr [[19, 22], [43, 50]]"
    by (simp add: matrix_multiply_def bind_r_def py_get2_def py_get_def upt_rec numeral_2_eq_2)
qed

theorem matrix_multiply_contract_witness:
  "rect [[1, 0, 2 :: int]] 1 3 \<and> rect [[1, 2], [3, 4], [5, 6 :: int]] 3 2
   \<and> (\<exists>r. matrix_multiply [[1, 0, 2]] [[1, 2], [3, 4], [5, 6 :: int]] = Inr r \<and> rect r 1 2
          \<and> (\<forall>i<1. \<forall>j<2. r ! i ! j
                = (\<Sum>k<3. [[1, 0, 2]] ! i ! k * [[1, 2], [3, 4], [5, 6]] ! k ! j)))"
  using matrix_multiply_contract [of "[[1, 0, 2 :: int]]" 1 3 "[[1, 2], [3, 4], [5, 6]]" 2]
  by (simp add: rect_def)

text \<open>
  C7 as stated, \<open>transpose(transpose(A)) = A\<close> for every rectangular \<open>A\<close> including the
  matrices whose rows all have length zero, fails: the matrix \<open>[[]]\<close> of one row of length
  zero is sent to \<open>[]\<close> by the first \<open>transpose\<close> and stays there.
\<close>

theorem transpose_twice_counterexample:
  "rect ([[]] :: int matrix) 1 0
   \<and> bind_r (transpose_mat ([[]] :: int matrix)) transpose_mat = Inr []
   \<and> bind_r (transpose_mat ([[]] :: int matrix)) transpose_mat \<noteq> Inr [[]]"
  by (simp add: transpose_mat_def bind_r_def rect_def)

text \<open>
  C7, amended. \<open>transpose(transpose(A)) = A\<close> for every rectangular \<open>A\<close> of \<open>R \<ge> 1\<close> rows
  and \<open>C \<ge> 1\<close> columns, and for \<open>A = []\<close>; every other empty matrix (rows of length zero)
  is sent to \<open>[]\<close>.
\<close>

theorem transpose_twice:
  "(rect A R C \<and> 0 < R \<and> 0 < C \<longrightarrow> bind_r (transpose_mat A) transpose_mat = Inr A)
   \<and> (A = [] \<or> hd A = [] \<longrightarrow> bind_r (transpose_mat A) transpose_mat = Inr [])"
proof (intro conjI impI)
  assume h: "rect A R C \<and> 0 < R \<and> 0 < C"
  then have 1: "transpose_mat A = Inr (transposed A R C)" by (simp add: transpose_mat_rect)
  have 2: "transpose_mat (transposed A R C) = Inr (transposed (transposed A R C) C R)"
    using h by (intro transpose_mat_rect rect_transposed) simp_all
  show "bind_r (transpose_mat A) transpose_mat = Inr A"
    using h 1 2 by (simp add: bind_r_def transposed_transposed)
next
  assume "A = [] \<or> hd A = []"
  then show "bind_r (transpose_mat A) transpose_mat = Inr []"
    by (auto simp: transpose_mat_def bind_r_def)
qed

theorem transpose_twice_witness:
  "rect [[1, 2, 3], [4, 5, 6 :: int]] 2 3
   \<and> bind_r (transpose_mat [[1, 2, 3], [4, 5, 6 :: int]]) transpose_mat = Inr [[1, 2, 3], [4, 5, 6]]
   \<and> bind_r (transpose_mat ([[], []] :: int matrix)) transpose_mat = Inr []"
  using transpose_twice [of "[[1, 2, 3], [4, 5, 6 :: int]]" 2 3]
    transpose_twice [of "[[], []] :: int matrix" 0 0]
  by (simp add: rect_def)

text \<open>
  C6 as stated, \<open>matrix_multiply\<close> returns \<open>[]\<close> whenever either input is empty (no rows,
  or a first row of length zero), fails: the function tests only for inputs without rows,
  and for a second input of one row of length zero the result is the row list \<open>[[]]\<close>.
\<close>

theorem matrix_multiply_empty_counterexample:
  "matrix_multiply [[1 :: int]] [[]] = Inr [[]] \<and> matrix_multiply [[1 :: int]] [[]] \<noteq> Inr []"
  by (simp add: matrix_multiply_def bind_r_def)

text \<open>
  C6, amended. \<open>matrix_multiply\<close> returns \<open>[]\<close> whenever either input has no rows, the
  first input has a first row of length zero, or the inner dimensions differ (the length
  of the first row of the first input is not the number of rows of the second). When both
  inputs have rows, the inner dimensions agree and the first row of the second input has
  length zero, it returns one empty row for each row of the first input.
\<close>

theorem matrix_multiply_empty:
  "(matrix1 = [] \<or> matrix2 = [] \<or> hd matrix1 = [] \<or> length (hd matrix1) \<noteq> length matrix2
      \<longrightarrow> matrix_multiply matrix1 matrix2 = Inr [])
   \<and> (matrix1 \<noteq> [] \<and> matrix2 \<noteq> [] \<and> length (hd matrix1) = length matrix2 \<and> hd matrix2 = []
      \<longrightarrow> matrix_multiply matrix1 matrix2 = Inr (replicate (length matrix1) []))"
  by (auto simp: matrix_multiply_def Let_def multiply_rows_no_columns)

theorem matrix_multiply_empty_witness:
  "matrix_multiply [[1, 2 :: int]] [[3, 4]] = Inr []
   \<and> matrix_multiply [[1], [2 :: int]] [[]] = Inr [[], []]"
  using matrix_multiply_empty [of "[[1, 2 :: int]]" "[[3, 4]]"]
    matrix_multiply_empty [of "[[1], [2 :: int]]" "[[]]"]
  by (simp add: numeral_2_eq_2)

section \<open>Claims about the eigenvalue step and the norms\<close>

text \<open>
  C5 as stated, \<open>compute_eigenvalues\<close> returns the eigenvalues without raising for every
  square matrix including the empty \<open>0 \<times> 0\<close> matrix, fails at the empty matrix \<open>[]\<close>: its
  array has the shape \<open>(0,)\<close>, and reading \<open>shape[1]\<close> raises \<open>IndexError\<close> before the
  routine is called, whatever the routine would return.
\<close>

theorem compute_eigenvalues_empty_counterexample:
  "compute_eigenvalues (fixed_eigvals []) ([] :: real matrix) = Inl IndexError"
  by (simp add: compute_eigenvalues_def np_shape_def bind_r_def py_get_def)

text \<open>
  C5, amended. For a rectangular input of \<open>R \<ge> 1\<close> rows and \<open>C\<close> columns,
  \<open>compute_eigenvalues\<close> raises the error "The matrix must be square" exactly when
  \<open>R \<noteq> C\<close>; for \<open>R = C\<close> it returns what the eigenvalue routine returns, and fails only
  if that routine fails.
\<close>

theorem compute_eigenvalues_square:
  "rect matrix R C \<and> 0 < R \<longrightarrow>
     (compute_eigenvalues eigvals matrix = Inl ShapeError \<longleftrightarrow> R \<noteq> C)
     \<and> (R = C \<longrightarrow> compute_eigenvalues eigvals matrix =
           (case eigvals matrix of None \<Rightarrow> Inl LinAlgError | Some evs \<Rightarrow> Inr evs))"
  by (auto simp: compute_eigenvalues_rect ShapeError_def split: option.splits)

theorem compute_eigenvalues_square_witness:
  "rect [[2, 0], [0, 3 :: real]] 2 2
   \<and> compute_eigenvalues (fixed_eigvals [2, 3]) [[2, 0], [0, 3 :: real]] = Inr [2, 3]
   \<and> rect [[1, 2, 3 :: real]] 1 3
   \<and> compute_eigenvalues (fixed_eigvals [2, 3]) [[1, 2, 3 :: real]] = Inl ShapeError"
  using compute_eigenvalues_square [of "[[2, 0], [0, 3 :: real]]" 2 2 "fixed_eigvals [2, 3]"]
    compute_eigenvalues_square [of "[[1, 2, 3 :: real]]" 1 3 "fixed_eigvals [2, 3]"]
  by (simp add: rect_def fixed_eigvals_def)

text \<open>
  C3. For every rectangular matrix of \<open>R \<ge> 1\<close> rows and \<open>C \<ge> 1\<close> columns, the Gram
  matrix \<open>matrix_multiply(transpose(matrix), matrix)\<close> is a square \<open>C \<times> C\<close> matrix, also
  when \<open>R \<noteq> C\<close>, so \<open>two_norm\<close> does not fail with the error "The matrix must be square",
  whatever the eigenvalue routine returns.
\<close>

theorem gram_matrix_square:
  "rect (matrix :: real matrix) R C \<and> 0 < R \<and> 0 < C \<longrightarrow>
     (\<exists>g. bind_r (transpose_mat matrix) (\<lambda>t. matrix_multiply t matrix) = Inr g \<and> rect g C C)
     \<and> two_norm eigvals matrix \<noteq> Inl ShapeError"
proof (intro impI conjI)
  assume h: "rect matrix R C \<and> 0 < R \<and> 0 < C"
  then have r: "rect matrix R C" and p: "0 < R" "0 < C" by simp_all
  note tn = two_norm_rect[OF r p, of eigvals]
  show "\<exists>g. bind_r (transpose_mat matrix) (\<lambda>t. matrix_multiply t matrix) = Inr g \<and> rect g C C"
    using gram_rect[OF r p] by (simp add: rect_product)
  show "two_norm eigvals matrix \<noteq> Inl ShapeError"
  proof (cases "eigvals (product (transposed matrix R C) matrix C R C)")
    case None
    then show ?thesis using tn by (simp add: errors_differ)
  next
    case (Some evs)
    then show ?thesis using tn by (cases evs) (simp_all add: bind_r_def errors_differ)
  qed
qed

theorem gram_matrix_square_witness:
  "rect [[1, 2, 3 :: real]] 1 3
   \<and> (\<exists>g. bind_r (transpose_mat [[1, 2, 3 :: real]]) (\<lambda>t. matrix_multiply t [[1, 2, 3]]) = Inr g
          \<and> rect g 3 3)
   \<and> two_norm (fixed_eigvals [14, 0, 0]) [[1, 2, 3 :: real]] \<noteq> Inl ShapeError"
  using gram_matrix_square [of "[[1, 2, 3]]" 1 3 "fixed_eigvals [14, 0, 0]"]
  by (simp add: rect_def)

text \<open>
  C10 as stated, every norm fails on every input without rows or with a first row of
  length zero, is false for \<open>max_norm\<close>: it reads the elements of all rows, and on
  \<open>[[], [1]]\<close>, whose first row has length zero, it returns \<open>1.0\<close>.
\<close>

theorem max_norm_ragged_counterexample:
  "hd [[], [1 :: int]] = [] \<and> max_norm [[], [1 :: int]] = Inr 1"
  by (simp add: max_norm_def bind_r_def py_float_def)

text \<open>
  C10, amended. For every input without rows or with a first row of length zero,
  \<open>one_norm\<close> and \<open>infinity_norm\<close> return no value: \<open>column_sums\<close> and \<open>row_sums\<close> give the
  empty list and \<open>max\<close> of it raises. \<open>max_norm\<close> raises that error exactly when the input
  has no element at all, that is, when every row has length zero.
\<close>

theorem empty_matrix_norms_fail:
  "(matrix = [] \<or> hd matrix = [] \<longrightarrow>
      column_sums matrix = Inr [] \<and> row_sums matrix = Inr []
      \<and> one_norm matrix = Inl max_empty \<and> infinity_norm matrix = Inl max_empty)
   \<and> (max_norm matrix = Inl max_empty \<longleftrightarrow> (\<forall>row\<in>set matrix. row = []))"
proof (intro conjI impI)
  assume "matrix = [] \<or> hd matrix = []"
  then show "column_sums matrix = Inr []" "row_sums matrix = Inr []"
    "one_norm matrix = Inl max_empty" "infinity_norm matrix = Inl max_empty"
    by (auto simp: one_norm_def infinity_norm_def column_sums_def row_sums_def bind_r_def)
next
  have some: "\<exists>v. max_norm matrix = Inr v" if "\<exists>row\<in>set matrix. row \<noteq> []"
  proof -
    from that have "map abs (concat matrix) \<noteq> []" by simp
    then obtain x xs where "map abs (concat matrix) = x # xs" by (cases "map abs (concat matrix)") auto
    then show ?thesis by (simp add: max_norm_def bind_r_def)
  qed
  show "max_norm matrix = Inl max_empty \<longleftrightarrow> (\<forall>row\<in>set matrix. row = [])"
  proof
    assume "max_norm matrix = Inl max_empty"
    then show "\<forall>row\<in>set matrix. row = []" using some by fastforce
  next
    assume "\<forall>row\<in>set matrix. row = []"
    then show "max_norm matrix = Inl max_empty"
      by (simp add: max_norm_def bind_r_def concat_all_empty)
  qed
qed

theorem empty_matrix_norms_fail_witness:
  "one_norm ([[], [1]] :: int matrix) = Inl max_empty
   \<and> infinity_norm ([[], [1]] :: int matrix) = Inl max_empty
   \<and> max_norm ([[], [1]] :: int matrix) \<noteq> Inl max_empty
   \<and> max_norm ([[], []] :: int matrix) = Inl max_empty
   \<and> max_norm ([] :: int matrix) = Inl max_empty"
  using empty_matrix_norms_fail [of "[[], [1]] :: int matrix"]
    empty_matrix_norms_fail [of "[[], []] :: int matrix"]
    empty_matrix_norms_fail [of "[] :: int matrix"]
  by simp

text \<open>
  C4 as stated, on the empty matrix the pipeline of \<open>two_norm\<close> degrades gracefully and
  neither \<open>compute_eigenvalues\<close> nor the norm formula fails on the empty Gram matrix, is
  false: the Gram matrix is \<open>[]\<close>, \<open>compute_eigenvalues\<close> raises \<open>IndexError\<close> on it, and so
  does \<open>two_norm\<close>, even with a routine that would return an empty list of eigenvalues.
\<close>

theorem two_norm_empty_counterexample:
  "bind_r (transpose_mat ([] :: real matrix)) (\<lambda>t. matrix_multiply t []) = Inr []
   \<and> two_norm (fixed_eigvals []) ([] :: real matrix) = Inl IndexError
   \<and> two_norm (fixed_eigvals []) ([[]] :: real matrix) = Inl IndexError"
  by (simp add: two_norm_def transpose_mat_def matrix_multiply_def compute_eigenvalues_def
      np_shape_def bind_r_def py_get_def)

text \<open>
  C4, amended. On every empty matrix (no rows, or a first row of length zero) the
  pipeline of \<open>two_norm\<close> produces the empty Gram matrix \<open>[]\<close> and then fails:
  \<open>compute_eigenvalues\<close> raises \<open>IndexError\<close> on \<open>[]\<close> whatever the eigenvalue routine,
  and so does \<open>two_norm\<close>. The norm formula itself raises on an empty list of eigenvalues.
\<close>

theorem two_norm_empty:
  "(matrix = [] \<or> hd matrix = [] \<longrightarrow>
      bind_r (transpose_mat matrix) (\<lambda>t. matrix_multiply t matrix) = Inr []
      \<and> two_norm eigvals matrix = Inl IndexError)
   \<and> compute_eigenvalues eigvals [] = Inl IndexError
   \<and> bind_r (py_max (map cmod [])) (\<lambda>v. Inr (sqrt v)) = Inl max_empty"
  by (auto simp: two_norm_def transpose_mat_def matrix_multiply_def compute_eigenvalues_def
      np_shape_def bind_r_def py_get_def)

theorem two_norm_empty_witness:
  "bind_r (transpose_mat ([[], []] :: real matrix)) (\<lambda>t. matrix_multiply t [[], []]) = Inr []
   \<and> two_norm (fixed_eigvals [0]) ([[], []] :: real matrix) = Inl IndexError"
  using two_norm_empty [of "[[], []] :: real matrix" "fixed_eigvals [0]"]
  by simp

section \<open>Claims about the two-norm\<close>

subsection \<open>The norm formula and the eigenvalues of small matrices\<close>

lemma gram_product: "product (transposed m R C) m C R C = gram m R C"
  by (auto simp: product_def gram_def transposed_nth intro!: sum.cong)

lemma foldl_max: "foldl (\<lambda>m y. if m < y then y else m) x xs = Max (set (x # xs))"
proof -
  have "(\<lambda>m y. if m < y then y else m) = (\<lambda>m y :: 'a. max y m)"
    by (auto simp: fun_eq_iff max_def)
  then have "foldl (\<lambda>m y. if m < y then y else m) x xs = fold max xs x"
    by (simp add: foldl_conv_fold)
  then show ?thesis by (simp only: Max.set_eq_fold)
qed

lemma py_max_Max: "xs \<noteq> [] \<Longrightarrow> py_max xs = Inr (Max (set xs))"
proof (cases xs)
  case Nil
  assume "xs \<noteq> []"
  with Nil show ?thesis by simp
next
  case (Cons y ys)
  then show ?thesis by (simp only: py_max.simps foldl_max)
qed

lemma vec2: "length v = 2 \<longleftrightarrow> (\<exists>x y. v = [x, y])"
  by (cases v; cases "tl v") auto

lemma sum_lessThan_2: "(\<Sum>k<2. f k) = f 0 + f (Suc 0)"
  by (simp add: numeral_2_eq_2)

lemma eigen_eqs:
  "is_eigenvalue [[a, b], [c, d]] l \<longleftrightarrow>
     (\<exists>x y. (x \<noteq> 0 \<or> y \<noteq> 0) \<and> complex_of_real a * x + complex_of_real b * y = l * x
            \<and> complex_of_real c * x + complex_of_real d * y = l * y)"
  unfolding is_eigenvalue_def
proof
  assume "\<exists>v. length v = length [[a, b], [c, d]] \<and> (\<exists>x\<in>set v. x \<noteq> 0)
     \<and> mat_vec [[a, b], [c, d]] v = map ((*) l) v"
  then obtain v where v: "length v = length [[a, b], [c, d]]" "\<exists>x\<in>set v. x \<noteq> 0"
    "mat_vec [[a, b], [c, d]] v = map ((*) l) v" by blast
  from v(1) have "length v = 2" by simp
  then obtain x y where xy: "v = [x, y]" unfolding vec2 by blast
  show "\<exists>x y. (x \<noteq> 0 \<or> y \<noteq> 0) \<and> complex_of_real a * x + complex_of_real b * y = l * x
            \<and> complex_of_real c * x + complex_of_real d * y = l * y"
    using v(2,3) unfolding xy by (intro exI[of _ x] exI[of _ y]) (auto simp: mat_vec_def sum_lessThan_2)
next
  assume "\<exists>x y. (x \<noteq> 0 \<or> y \<noteq> 0) \<and> complex_of_real a * x + complex_of_real b * y = l * x
            \<and> complex_of_real c * x + complex_of_real d * y = l * y"
  then obtain x y where "x \<noteq> 0 \<or> y \<noteq> 0" "complex_of_real a * x + complex_of_real b * y = l * x"
     "complex_of_real c * x + complex_of_real d * y = l * y" by blast
  then show "\<exists>v. length v = length [[a, b], [c, d]] \<and> (\<exists>x\<in>set v. x \<noteq> 0)
     \<and> mat_vec [[a, b], [c, d]] v = map ((*) l) v"
    by (intro exI[of _ "[x, y]"]) (auto simp: mat_vec_def sum_lessThan_2)
qed

lemma char_roots:
  fixes l :: complex
  shows "l * l - 30 * l + 4 = 0 \<longleftrightarrow>
     l = complex_of_real (15 - sqrt 221) \<or> l = complex_of_real (15 + sqrt 221)"
proof -
  define s where "s = complex_of_real (sqrt 221)"
  have ss: "s * s = 221"
    unfolding s_def by (simp flip: of_real_mult)
  have "l * l - 30 * l + 4 = (l - (15 - s)) * (l - (15 + s))"
    using ss by (simp add: algebra_simps)
  then have "l * l - 30 * l + 4 = 0 \<longleftrightarrow> l = 15 - s \<or> l = 15 + s"
    by simp
  then show ?thesis by (simp add: s_def)
qed

lemma gram_example_eigenvalues:
  "is_eigenvalue [[10, 14], [14, 20]] l \<longleftrightarrow>
     l = complex_of_real (15 - sqrt 221) \<or> l = complex_of_real (15 + sqrt 221)"
proof -
  have "is_eigenvalue [[10, 14], [14, 20]] l \<longleftrightarrow> l * l - 30 * l + 4 = 0"
  proof
    assume "is_eigenvalue [[10, 14], [14, 20]] l"
    then obtain x y where nz: "x \<noteq> 0 \<or> y \<noteq> 0"
      and e1: "10 * x + 14 * y = l * x" and e2: "14 * x + 20 * y = l * y"
      unfolding eigen_eqs by auto
    have 1: "14 * y = (l - 10) * x" using e1 by (simp add: algebra_simps)
    have 2: "14 * x = (l - 20) * y" using e2 by (simp add: algebra_simps)
    have "196 * x = 14 * (14 * x)" by simp
    also have "\<dots> = (l - 20) * (14 * y)" by (simp only: 2) (simp add: algebra_simps)
    also have "\<dots> = (l - 20) * ((l - 10) * x)" by (simp only: 1)
    finally have x: "(l * l - 30 * l + 4) * x = 0" by (simp add: algebra_simps)
    have "196 * y = 14 * (14 * y)" by simp
    also have "\<dots> = (l - 10) * (14 * x)" by (simp only: 1) (simp add: algebra_simps)
    also have "\<dots> = (l - 10) * ((l - 20) * y)" by (simp only: 2)
    finally have y: "(l * l - 30 * l + 4) * y = 0" by (simp add: algebra_simps)
    show "l * l - 30 * l + 4 = 0" using nz x y by auto
  next
    assume c: "l * l - 30 * l + 4 = 0"
    have "14 * 14 + 20 * (l - 10) = l * (l - 10)"
      using c by (simp add: algebra_simps)
    moreover have "10 * 14 + 14 * (l - 10) = l * 14" by (simp add: algebra_simps)
    ultimately show "is_eigenvalue [[10, 14], [14, 20]] l"
      unfolding eigen_eqs by (intro exI[of _ 14] exI[of _ "l - 10"]) simp
  qed
  then show ?thesis by (simp only: char_roots)
qed

lemma sqrt_221_bounds: "14.86606874 < sqrt 221" "sqrt 221 < 14.86606875"
  by (rule real_less_rsqrt, simp add: power2_eq_square) (rule real_less_lsqrt, simp_all add: power2_eq_square)

lemma example_norm_bounds:
  "5.4649857035 < sqrt (15 + sqrt 221)" "sqrt (15 + sqrt 221) < 5.464985705"
proof -
  have "(5.4649857035 :: real)\<^sup>2 < 15 + 14.86606874" by (simp add: power2_eq_square)
  also have "\<dots> < 15 + sqrt 221" using sqrt_221_bounds(1) by simp
  finally show "5.4649857035 < sqrt (15 + sqrt 221)" by (rule real_less_rsqrt)
  have "15 + sqrt 221 < 15 + 14.86606875" using sqrt_221_bounds(2) by simp
  also have "\<dots> < (5.464985705 :: real)\<^sup>2" by (simp add: power2_eq_square)
  finally show "sqrt (15 + sqrt 221) < 5.464985705" by (intro real_less_lsqrt) simp_all
qed

lemma example_norm_close: "\<bar>sqrt (15 + sqrt 221) - 5.464985704219043\<bar> < 1 / 1000000000"
proof -
  have "sqrt (15 + sqrt 221) - 5.464985704219043 < 1 / 1000000000"
    using example_norm_bounds(2) by simp
  moreover have "- (sqrt (15 + sqrt 221) - 5.464985704219043) < 1 / 1000000000"
    using example_norm_bounds(1) by simp
  ultimately show ?thesis by (rule abs_less_iff[THEN iffD2, OF conjI])
qed



lemma two_norm_value:
  assumes "rect m R C" "0 < R" "0 < C" "eigvals (gram m R C) = Some evs" "evs \<noteq> []"
  shows "two_norm eigvals m = Inr (sqrt (Max (cmod ` set evs)))"
  using two_norm_rect[OF assms(1-3), of eigvals] assms(4,5)
  by (simp add: gram_product py_max_Max bind_r_def)


lemma gram_example: "gram [[1, 2], [3, 4]] 2 2 = [[10, 14], [14, 20]]"
  by (simp add: gram_def sum_lessThan_2 upt_rec numeral_2_eq_2)

lemma example_Max:
  assumes "set evs = {l. is_eigenvalue [[10, 14], [14, 20]] l}"
  shows "Max (cmod ` set evs) = 15 + sqrt 221"
proof -
  have s: "sqrt 221 < 15" by (rule real_less_lsqrt) simp_all
  have p: "0 \<le> sqrt 221" by simp
  have "set evs = {complex_of_real (15 - sqrt 221), complex_of_real (15 + sqrt 221)}"
    using assms by (auto simp: gram_example_eigenvalues)
  then have "cmod ` set evs = {\<bar>15 - sqrt 221\<bar>, \<bar>15 + sqrt 221\<bar>}"
    by (simp only: image_insert image_empty norm_of_real)
  also have "\<dots> = {15 - sqrt 221, 15 + sqrt 221}" using s p by simp
  finally show ?thesis using p by (simp add: max_def)
qed

lemma example_exact:
  "exact_eigenvalues [[10, 14], [14, 20]] [complex_of_real (15 - sqrt 221), complex_of_real (15 + sqrt 221)]"
  by (auto simp: exact_eigenvalues_def gram_example_eigenvalues trace_def sum_lessThan_2)



subsection \<open>The claim of the pipeline\<close>

text \<open>
  C1. \<open>two_norm(matrix)\<close> is computed by the pipeline: the transpose of the input, the
  product of the transpose with the input (the Gram matrix), the eigenvalues of the Gram
  matrix, the square root of the greatest modulus of an eigenvalue. For \<open>[[1,2],[3,4]]\<close>
  the Gram matrix is \<open>[[10,14],[14,20]]\<close> and, when the routine returns its eigenvalues,
  the result is within \<open>1e-9\<close> of \<open>5.464985704219043\<close>.
\<close>

theorem two_norm_pipeline:
  "(rect matrix R C \<and> 0 < R \<and> 0 < C \<and> eigvals (gram matrix R C) = Some evs \<and> evs \<noteq> [] \<longrightarrow>
      transpose_mat matrix = Inr (transposed matrix R C)
      \<and> matrix_multiply (transposed matrix R C) matrix = Inr (gram matrix R C)
      \<and> compute_eigenvalues eigvals (gram matrix R C) = Inr evs
      \<and> two_norm eigvals matrix = Inr (sqrt (Max (cmod ` set evs))))
   \<and> (eigvals [[10, 14], [14, 20]] = Some evs' \<and> exact_eigenvalues [[10, 14], [14, 20]] evs' \<longrightarrow>
      transpose_mat [[1, 2], [3, 4 :: real]] = Inr [[1, 3], [2, 4]]
      \<and> matrix_multiply [[1, 3], [2, 4]] [[1, 2], [3, 4 :: real]] = Inr [[10, 14], [14, 20]]
      \<and> (\<exists>r. two_norm eigvals [[1, 2], [3, 4]] = Inr r
             \<and> \<bar>r - 5.464985704219043\<bar> < 1 / 1000000000))"
proof (intro conjI impI)
  assume h: "rect matrix R C \<and> 0 < R \<and> 0 < C \<and> eigvals (gram matrix R C) = Some evs \<and> evs \<noteq> []"
  then have r: "rect matrix R C" and p: "0 < R" "0 < C"
    and e: "eigvals (gram matrix R C) = Some evs" "evs \<noteq> []" by simp_all
  show "transpose_mat matrix = Inr (transposed matrix R C)"
    using r p by (rule transpose_mat_rect)
  show "matrix_multiply (transposed matrix R C) matrix = Inr (gram matrix R C)"
    using matrix_multiply_rect[OF rect_transposed r p(2,1)] by (simp add: gram_product)
  have "rect (gram matrix R C) C C" using rect_product[of "transposed matrix R C" matrix C R C]
    by (simp add: gram_product)
  then show "compute_eigenvalues eigvals (gram matrix R C) = Inr evs"
    using p(2) e(1) by (simp add: compute_eigenvalues_rect)
  show "two_norm eigvals matrix = Inr (sqrt (Max (cmod ` set evs)))"
    using r p e by (rule two_norm_value)
next
  show "transpose_mat [[1, 2], [3, 4 :: real]] = Inr [[1, 3], [2, 4]]"
    by (simp add: transpose_mat_def bind_r_def py_get2_def py_get_def upt_rec numeral_2_eq_2)
  show "matrix_multiply [[1, 3], [2, 4]] [[1, 2], [3, 4 :: real]] = Inr [[10, 14], [14, 20]]"
    by (simp add: matrix_multiply_def bind_r_def py_get2_def py_get_def upt_rec numeral_2_eq_2)
next
  assume h: "eigvals [[10, 14], [14, 20]] = Some evs' \<and> exact_eigenvalues [[10, 14], [14, 20]] evs'"
  then have ne: "evs' \<noteq> []" by (auto simp: exact_eigenvalues_def)
  have st: "set evs' = {l. is_eigenvalue [[10, 14], [14, 20]] l}"
    using h by (simp add: exact_eigenvalues_def)
  have rc: "rect [[1, 2], [3, 4 :: real]] 2 2" by (simp add: rect_def)
  have "two_norm eigvals [[1, 2], [3, 4]] = Inr (sqrt (Max (cmod ` set evs')))"
    using h ne by (intro two_norm_value[OF rc]) (simp_all add: gram_example)
  then have "two_norm eigvals [[1, 2], [3, 4]] = Inr (sqrt (15 + sqrt 221))"
    by (simp only: example_Max[OF st])
  then show "\<exists>r. two_norm eigvals [[1, 2], [3, 4]] = Inr r \<and> \<bar>r - 5.464985704219043\<bar> < 1 / 1000000000"
    using example_norm_close by blast
qed

theorem two_norm_pipeline_witness:
  "rect [[1, 2], [3, 4 :: real]] 2 2
   \<and> exact_eigenvalues [[10, 14], [14, 20]]
        [complex_of_real (15 - sqrt 221), complex_of_real (15 + sqrt 221)]
   \<and> two_norm (fixed_eigvals [complex_of_real (15 - sqrt 221), complex_of_real (15 + sqrt 221)])
         [[1, 2], [3, 4 :: real]]
       = Inr (sqrt (Max (cmod ` set [complex_of_real (15 - sqrt 221), complex_of_real (15 + sqrt 221)])))
   \<and> (\<exists>r. two_norm (fixed_eigvals [complex_of_real (15 - sqrt 221), complex_of_real (15 + sqrt 221)])
            [[1, 2], [3, 4 :: real]] = Inr r
          \<and> \<bar>r - 5.464985704219043\<bar> < 1 / 1000000000)"
proof -
  let ?E = "[complex_of_real (15 - sqrt 221), complex_of_real (15 + sqrt 221)]"
  have r: "rect [[1, 2], [3, 4 :: real]] 2 2" by (simp add: rect_def)
  have f: "fixed_eigvals ?E [[10, 14], [14, 20 :: real]] = Some ?E" by (simp add: fixed_eigvals_def)
  have "\<exists>r. two_norm (fixed_eigvals ?E) [[1, 2], [3, 4 :: real]] = Inr r
          \<and> \<bar>r - 5.464985704219043\<bar> < 1 / 1000000000"
    using two_norm_pipeline [of "[[1, 2], [3, 4 :: real]]" 2 2 "fixed_eigvals ?E" ?E ?E] f example_exact
    by blast
  moreover have "fixed_eigvals ?E (gram [[1, 2], [3, 4 :: real]] 2 2) = Some ?E" "?E \<noteq> []"
    by (simp_all add: fixed_eigvals_def)
  then have "two_norm (fixed_eigvals ?E) [[1, 2], [3, 4 :: real]] = Inr (sqrt (Max (cmod ` set ?E)))"
    using two_norm_pipeline [of "[[1, 2], [3, 4 :: real]]" 2 2 "fixed_eigvals ?E" ?E ?E] r
    by simp
  ultimately show ?thesis using r example_exact by blast
qed

subsection \<open>Rounding to zero, and the pipeline on a matrix of zeros\<close>














subsection \<open>The claim\<close>




end
